theory Spec2Isabelle
  imports Main
begin

section \<open>Values and exceptions of the plugin\<close>

text \<open>
  The plugin (\<^verbatim>\<open>python_ruff.py\<close>) handles values decoded from the linter's JSON
  output. They are dynamically typed, so they are modelled by one datatype; numbers are
  restricted to integers (rows and columns). An object is the list of its items, keys
  distinct.
\<close>

datatype json =
  JNull
| JBool bool
| JInt int
| JStr string
| JArr "json list"
| JObj "(string \<times> json) list"

text \<open>The Python exceptions the modelled code can raise.\<close>

datatype exn = AttributeError | TypeError | KeyError | IndexError

text \<open>Sequencing of computations that may raise: the first exception wins.\<close>

definition bindE :: "exn + 'a \<Rightarrow> ('a \<Rightarrow> exn + 'b) \<Rightarrow> exn + 'b" where
  "bindE m f = (case m of Inl e \<Rightarrow> Inl e | Inr x \<Rightarrow> f x)"

text \<open>Python truthiness (\<^verbatim>\<open>if x:\<close>, \<^verbatim>\<open>not x\<close>) of a decoded value.\<close>

fun truthy :: "json \<Rightarrow> bool" where
  "truthy JNull = False"
| "truthy (JBool b) = b"
| "truthy (JInt n) = (n \<noteq> 0)"
| "truthy (JStr s) = (s \<noteq> [])"
| "truthy (JArr xs) = (xs \<noteq> [])"
| "truthy (JObj kvs) = (kvs \<noteq> [])"

text \<open>\<^verbatim>\<open>d.get(key, default)\<close>: only a dict has the attribute \<^verbatim>\<open>get\<close>.\<close>

fun dict_get :: "json \<Rightarrow> string \<Rightarrow> json \<Rightarrow> exn + json" where
  "dict_get (JObj kvs) k dflt = Inr (case map_of kvs k of Some v \<Rightarrow> v | None \<Rightarrow> dflt)"
| "dict_get _ k dflt = Inl AttributeError"

text \<open>\<^verbatim>\<open>x - 1\<close>: defined on integers and on booleans (Python's bool is an int).\<close>

fun minus_one :: "json \<Rightarrow> exn + int" where
  "minus_one (JInt n) = Inr (n - 1)"
| "minus_one (JBool b) = Inr ((if b then 1 else 0) - 1)"
| "minus_one _ = Inl TypeError"

text \<open>\<^verbatim>\<open>for x in v\<close>: a list yields its elements, a dict its keys, a string its
  characters; the other values are not iterable.\<close>

fun py_iter :: "json \<Rightarrow> exn + json list" where
  "py_iter (JArr xs) = Inr xs"
| "py_iter (JObj kvs) = Inr (map (\<lambda>kv. JStr (fst kv)) kvs)"
| "py_iter (JStr s) = Inr (map (\<lambda>c. JStr [c]) s)"
| "py_iter _ = Inl TypeError"

section \<open>Severity classification\<close>

datatype severity = Error | Warning | Info

definition error_prefixes :: "string list" where
  "error_prefixes = [''E'', ''F'']"

definition warning_prefixes :: "string list" where
  "warning_prefixes =
    [''W'', ''N'', ''D'', ''UP'', ''ANN'', ''S'', ''B'', ''A'', ''C'', ''DTZ'', ''T'', ''EM'',
     ''EXE'', ''ISC'', ''ICN'', ''G'', ''INP'', ''PIE'', ''PYI'', ''PT'', ''Q'', ''RSE'', ''RET'',
     ''SLF'', ''SLOT'', ''SIM'', ''TID'', ''TCH'', ''INT'', ''ARG'', ''PTH'', ''TD'', ''FIX'',
     ''ERA'', ''PD'', ''PGH'', ''PL'', ''TRY'', ''FLY'', ''NPY'', ''AIR'', ''PERF'', ''FURB'',
     ''LOG'', ''RUF'']"

text \<open>\<^verbatim>\<open>s.startswith(p)\<close> on strings.\<close>

definition startswith :: "string \<Rightarrow> string \<Rightarrow> bool" where
  "startswith s p = (take (length p) s = p)"

text \<open>
  \<^verbatim>\<open>_get_severity(code)\<close>. A falsy code is an error. Otherwise \<^verbatim>\<open>code[0]\<close> is
  tested for membership in \<^verbatim>\<open>error_prefixes\<close> first, and only then are the warning
  prefixes tried with \<^verbatim>\<open>startswith\<close>. On a string, \<^verbatim>\<open>code[0]\<close> is its first
  character; on a list its first element (and a list has no \<^verbatim>\<open>startswith\<close>); a dict
  has no key \<^verbatim>\<open>0\<close>; a number is not subscriptable.
\<close>

fun get_severity :: "json \<Rightarrow> exn + severity" where
  "get_severity (JStr s) =
     (if s = [] then Inr Error
      else if [hd s] \<in> set error_prefixes then Inr Error
      else if list_ex (startswith s) warning_prefixes then Inr Warning
      else Inr Info)"
| "get_severity (JArr xs) =
     (if xs = [] then Inr Error
      else if hd xs \<in> set (map JStr error_prefixes) then Inr Error
      else Inl AttributeError)"
| "get_severity (JObj kvs) = (if kvs = [] then Inr Error else Inl KeyError)"
| "get_severity (JInt n) = (if n = 0 then Inr Error else Inl TypeError)"
| "get_severity (JBool b) = (if b then Inl TypeError else Inr Error)"
| "get_severity JNull = Inr Error"

text \<open>The code stored for an issue: \<^verbatim>\<open>diag.get("code", "")\<close>, so a missing code is
  the empty string.\<close>

definition code_of :: "json \<Rightarrow> exn + json" where
  "code_of diag = dict_get diag ''code'' (JStr [])"

section \<open>Paths\<close>

text \<open>Paths are POSIX paths, as \<^verbatim>\<open>posixpath\<close> treats them.\<close>

definition sep :: char where
  "sep = CHR ''/''"

text \<open>\<^verbatim>\<open>os.path.isabs\<close>: the path starts with a slash.\<close>

definition isabs :: "string \<Rightarrow> bool" where
  "isabs s = (s \<noteq> [] \<and> hd s = sep)"

text \<open>\<^verbatim>\<open>os.path.dirname\<close>: everything up to the last slash, with the trailing slashes
  removed unless only slashes are left.\<close>

definition dirname :: "string \<Rightarrow> string" where
  "dirname p =
     (let head = rev (dropWhile (\<lambda>c. c \<noteq> sep) (rev p))
      in if head \<noteq> [] \<and> head \<noteq> replicate (length head) sep
         then rev (dropWhile (\<lambda>c. c = sep) (rev head))
         else head)"

text \<open>\<^verbatim>\<open>os.path.join(a, b)\<close> for two components.\<close>

definition path_join :: "string \<Rightarrow> string \<Rightarrow> string" where
  "path_join a b =
     (if b \<noteq> [] \<and> hd b = sep then b
      else if a = [] \<or> last a = sep then a @ b
      else a @ [sep] @ b)"

section \<open>Locating the tool\<close>

text \<open>
  The file system and the command search path are the environment:
  \<^verbatim>\<open>os.path.exists\<close>, \<^verbatim>\<open>os.path.isdir\<close>, \<^verbatim>\<open>os.path.isfile\<close>,
  \<^verbatim>\<open>os.access(_, os.X_OK)\<close>, and the directories of \<^verbatim>\<open>PATH\<close> in their order
  (none when \<^verbatim>\<open>PATH\<close> is empty).
\<close>

record os_env =
  os_exists :: "string \<Rightarrow> bool"
  os_isdir :: "string \<Rightarrow> bool"
  os_isfile :: "string \<Rightarrow> bool"
  os_access_x :: "string \<Rightarrow> bool"
  search_path :: "string list"

text \<open>
  \<^verbatim>\<open>shutil.which(cmd)\<close> of the standard library, on POSIX and with its default mode
  \<^verbatim>\<open>os.F_OK | os.X_OK\<close>, which is \<^verbatim>\<open>os.X_OK\<close>. Its \<^verbatim>\<open>_access_check\<close> accepts
  a path that exists, is executable and is not a directory. A command with a directory
  part is checked as it is, without looking at the search path. Otherwise the
  directories of the search path are tried in order, each one once (\<open>seen\<close>), and the
  first accepted \<^verbatim>\<open>os.path.join(dir, cmd)\<close> is returned.
\<close>

definition access_check :: "os_env \<Rightarrow> string \<Rightarrow> bool" where
  "access_check env fn = (os_exists env fn \<and> os_access_x env fn \<and> \<not> os_isdir env fn)"

fun which_loop :: "os_env \<Rightarrow> string \<Rightarrow> string list \<Rightarrow> string list \<Rightarrow> string option" where
  "which_loop env cmd seen [] = None"
| "which_loop env cmd seen (dir # rest) =
     (if dir \<in> set seen then which_loop env cmd seen rest
      else (let name = path_join dir cmd
            in if access_check env name then Some name
               else which_loop env cmd (dir # seen) rest))"

definition shutil_which :: "os_env \<Rightarrow> string \<Rightarrow> string option" where
  "shutil_which env cmd =
     (if dirname cmd \<noteq> []
      then (if access_check env cmd then Some cmd else None)
      else if search_path env = [] then None
      else which_loop env cmd [] (search_path env))"

text \<open>The two \<^verbatim>\<open>FileNotFoundError\<close>s that \<^verbatim>\<open>find_ruff_binary\<close> raises.\<close>

datatype tool_error = NotFoundAt string | NotFoundInPath

text \<open>
  \<^verbatim>\<open>find_ruff_binary(settings)\<close>. The argument is the setting \<^verbatim>\<open>ruff_binary\<close>
  (\<open>None\<close> when it is not set, and the default \<^verbatim>\<open>"ruff"\<close> applies). The result of
  \<^verbatim>\<open>shutil.which\<close> is tested for truth, so an empty string counts as no result.
\<close>

definition find_ruff_binary :: "os_env \<Rightarrow> string option \<Rightarrow> tool_error + string" where
  "find_ruff_binary env setting =
     (let ruff_binary = (case setting of None \<Rightarrow> ''ruff'' | Some s \<Rightarrow> s)
      in if isabs ruff_binary
         then (if os_isfile env ruff_binary \<and> os_access_x env ruff_binary
               then Inr ruff_binary
               else Inl (NotFoundAt ruff_binary))
         else (case shutil_which env ruff_binary of
                 Some binary_path \<Rightarrow>
                   if binary_path \<noteq> [] then Inr binary_path else Inl NotFoundInPath
               | None \<Rightarrow> Inl NotFoundInPath))"

section \<open>Finding the configuration file\<close>

definition config_names :: "string list" where
  "config_names = [''ruff.toml'', ''.ruff.toml'', ''pyproject.toml'']"

text \<open>The inner \<^verbatim>\<open>for config_name in [...]\<close> loop: the first name that is a file in
  \<open>current_dir\<close>.\<close>

fun check_names :: "(string \<Rightarrow> bool) \<Rightarrow> string \<Rightarrow> string list \<Rightarrow> string option" where
  "check_names isfile current_dir [] = None"
| "check_names isfile current_dir (config_name # rest) =
     (let config_file = path_join current_dir config_name
      in if isfile config_file then Some config_file
         else check_names isfile current_dir rest)"

lemma rev_dropWhile_prefix: "\<exists>t. p = rev (dropWhile P (rev p)) @ t"
proof -
  have "rev (takeWhile P (rev p) @ dropWhile P (rev p)) = rev (rev p)"
    by (simp only: takeWhile_dropWhile_id)
  then have "p = rev (dropWhile P (rev p)) @ rev (takeWhile P (rev p))"
    by (simp only: rev_append rev_rev_ident)
  then show ?thesis by blast
qed

lemma dirname_prefix: "\<exists>t. p = dirname p @ t"
proof -
  define h where "h = rev (dropWhile (\<lambda>c. c \<noteq> sep) (rev p))"
  obtain t1 where t1: "p = h @ t1"
    unfolding h_def using rev_dropWhile_prefix by blast
  obtain t2 where t2: "h = rev (dropWhile (\<lambda>c. c = sep) (rev h)) @ t2"
    using rev_dropWhile_prefix by blast
  show ?thesis
  proof (cases "h \<noteq> [] \<and> h \<noteq> replicate (length h) sep")
    case True
    then have "dirname p = rev (dropWhile (\<lambda>c. c = sep) (rev h))"
      by (simp add: dirname_def h_def Let_def)
    then have "p = dirname p @ (t2 @ t1)" using t1 t2 by simp
    then show ?thesis by blast
  next
    case False
    then have "dirname p = h" by (auto simp add: dirname_def h_def Let_def)
    then show ?thesis using t1 by auto
  qed
qed

lemma dirname_shorter: "dirname p \<noteq> p \<Longrightarrow> length (dirname p) < length p"
proof -
  assume ne: "dirname p \<noteq> p"
  obtain t where t: "p = dirname p @ t" using dirname_prefix by blast
  then have "t \<noteq> []" using ne by auto
  then have "length (dirname p) < length (dirname p @ t)" by simp
  then show ?thesis using t by simp
qed

text \<open>The \<^verbatim>\<open>while True\<close> loop: check the names in \<open>current_dir\<close>, then go to the
  parent, and stop when the parent is the directory itself.\<close>

function walk_up :: "(string \<Rightarrow> bool) \<Rightarrow> string \<Rightarrow> string option" where
  "walk_up isfile current_dir =
     (case check_names isfile current_dir config_names of
        Some config_file \<Rightarrow> Some config_file
      | None \<Rightarrow>
          (let parent_dir = dirname current_dir
           in if parent_dir = current_dir then None
              else walk_up isfile parent_dir))"
  by pat_completeness auto
termination
  by (relation "measure (\<lambda>(isfile, d). length d)") (auto simp add: dirname_shorter)

declare walk_up.simps [simp del]

text \<open>
  \<^verbatim>\<open>get_ruff_config_file(filepath)\<close>. \<^verbatim>\<open>os.path.abspath\<close> depends on the working
  directory and is a parameter; \<open>None\<close> and the empty string are the falsy paths.
\<close>

definition get_ruff_config_file ::
  "(string \<Rightarrow> string) \<Rightarrow> (string \<Rightarrow> bool) \<Rightarrow> string option \<Rightarrow> string option" where
  "get_ruff_config_file abspath isfile filepath =
     (case filepath of
        None \<Rightarrow> None
      | Some fp \<Rightarrow>
          if fp = [] then None
          else (let path = abspath fp; current_dir = dirname path
                in walk_up isfile current_dir))"

text \<open>
  The resolution as the specification words it: the directories on the walk are the
  containing directory and its parents up to the one that is its own parent; the
  candidates are, directory by directory, the three names in priority order; the result
  is the first candidate that exists.
\<close>

function ancestors :: "string \<Rightarrow> string list" where
  "ancestors d = (if dirname d = d then [d] else d # ancestors (dirname d))"
  by pat_completeness auto
termination
  by (relation "measure length") (auto simp add: dirname_shorter)

declare ancestors.simps [simp del]

definition candidates :: "string \<Rightarrow> string list" where
  "candidates d = concat (map (\<lambda>dir. map (path_join dir) config_names) (ancestors d))"

definition nearest_config :: "(string \<Rightarrow> bool) \<Rightarrow> string \<Rightarrow> string option" where
  "nearest_config isfile d = find isfile (candidates d)"

section \<open>The view\<close>

text \<open>\<^verbatim>\<open>sublime.Region(a, b)\<close> with its methods \<^verbatim>\<open>begin\<close>, \<^verbatim>\<open>end\<close> and
  \<^verbatim>\<open>empty\<close>.\<close>

datatype region = Region (reg_a: int) (reg_b: int)

definition region_begin :: "region \<Rightarrow> int" where
  "region_begin r = min (reg_a r) (reg_b r)"

definition region_end :: "region \<Rightarrow> int" where
  "region_end r = max (reg_a r) (reg_b r)"

definition region_empty :: "region \<Rightarrow> bool" where
  "region_empty r = (reg_a r = reg_b r)"

text \<open>
  The editor's functions of the buffer that the plugin calls and cannot change:
  \<^verbatim>\<open>view.text_point(row, col)\<close>, \<^verbatim>\<open>view.word(point)\<close> and \<^verbatim>\<open>view.line(point)\<close>.
\<close>

record view_api =
  view_text_point :: "int \<Rightarrow> int \<Rightarrow> int"
  view_word :: "int \<Rightarrow> region"
  view_line :: "int \<Rightarrow> region"

text \<open>An entry of the list stored under the view setting \<^verbatim>\<open>ruff_diagnostics\<close>.\<close>

record diagnostic =
  d_region :: region
  d_code :: json
  d_message :: json
  d_url :: json
  d_severity :: severity
  d_row :: json
  d_col :: json

text \<open>
  What the user is told: \<^verbatim>\<open>sublime.status_message\<close> and \<^verbatim>\<open>sublime.error_message\<close>.
  Messages built by formatting a value carry the value instead of its rendering.
\<close>

datatype message =
  StatusMessage string
| ErrorMessage string
| StatusFound nat
| StatusDiagnostic json json
| StatusFormatFailed string
| StatusFixFailed string
| ErrorLintFailed string
| ErrorNotFound tool_error
| ErrorException exn

text \<open>
  The state of a view that the commands read and write: whether the buffer is Python
  source, its file name, its text, the selection, the three region sets drawn by the
  linter, the stored diagnostics (\<open>None\<close> when the setting is erased), the region last
  scrolled to, the content given to the output panel, and the messages shown so far.
\<close>

record view =
  is_python :: bool
  file_name :: "string option"
  buffer :: string
  sel :: "region list"
  ruff_errors :: "region list"
  ruff_warnings :: "region list"
  ruff_info :: "region list"
  ruff_diagnostics :: "diagnostic list option"
  shown :: "region option"
  exec_panel :: "diagnostic list option"
  messages :: "message list"

definition tell :: "message \<Rightarrow> view \<Rightarrow> view" where
  "tell m v = v\<lparr>messages := messages v @ [m]\<rparr>"

text \<open>The three \<^verbatim>\<open>erase_regions\<close> calls.\<close>

definition erase_markers :: "view \<Rightarrow> view" where
  "erase_markers v = v\<lparr>ruff_errors := [], ruff_warnings := [], ruff_info := []\<rparr>"

text \<open>\<^verbatim>\<open>view.substr(region)\<close> and \<^verbatim>\<open>view.replace(edit, region, text)\<close>. How the editor
  moves the selection after a replacement is not modelled.\<close>

definition substr :: "view \<Rightarrow> region \<Rightarrow> string" where
  "substr v r =
     take (nat (region_end r) - nat (region_begin r)) (drop (nat (region_begin r)) (buffer v))"

definition replace :: "view \<Rightarrow> region \<Rightarrow> string \<Rightarrow> view" where
  "replace v r s =
     v\<lparr>buffer := take (nat (region_begin r)) (buffer v) @ s @ drop (nat (region_end r)) (buffer v)\<rparr>"

definition whole :: "view \<Rightarrow> region" where
  "whole v = Region 0 (int (length (buffer v)))"

text \<open>
  The outcome of \<^verbatim>\<open>subprocess.Popen\<close>, \<^verbatim>\<open>communicate\<close> and the decoding of the
  output: the exit code with standard output and standard error, a timeout, or any other
  exception with its text. The command line, the working directory and the timeout are
  part of the environment that produces the outcome.
\<close>

datatype proc_result =
  Completed int string string
| TimeoutExpired
| OtherFailure string

section \<open>Format\<close>

text \<open>
  \<^verbatim>\<open>PythonRuffFormatCommand.run\<close>. \<open>tool\<close> is the formatter run on the text given on
  its standard input. \<^verbatim>\<open>self.view.sel()[0]\<close> is outside the \<^verbatim>\<open>try\<close>, so a view
  without a selection raises.
\<close>

definition format_run ::
  "os_env \<Rightarrow> string option \<Rightarrow> bool \<Rightarrow> (string \<Rightarrow> proc_result) \<Rightarrow> view \<Rightarrow> exn + view" where
  "format_run env setting use_selection tool v =
     (if \<not> is_python v then Inr (tell (StatusMessage ''PythonRuff: Not a Python file'') v)
      else case find_ruff_binary env setting of
        Inl e \<Rightarrow> Inr (tell (ErrorNotFound e) v)
      | Inr ruff_binary \<Rightarrow>
          (case sel v of
             [] \<Rightarrow> Inl IndexError
           | first # others \<Rightarrow>
               (let region = (if region_empty first \<or> \<not> use_selection then whole v else first);
                    code = substr v region
                in case tool code of
                     Completed returncode stdout stderr \<Rightarrow>
                       if returncode = 0
                       then (if stdout \<noteq> code
                             then Inr (tell (StatusMessage ''PythonRuff: Formatted successfully'')
                                        (replace v region stdout))
                             else Inr (tell (StatusMessage ''PythonRuff: Already formatted'') v))
                       else Inr (tell (StatusFormatFailed stderr) v)
                   | TimeoutExpired \<Rightarrow>
                       Inr (tell (ErrorMessage ''PythonRuff: Ruff execution timed out'') v)
                   | OtherFailure text \<Rightarrow>
                       Inr (tell (ErrorMessage (''PythonRuff: '' @ text)) v))))"

section \<open>Fix\<close>

text \<open>\<^verbatim>\<open>PythonRuffFixCommand.run\<close>: the whole buffer goes to the tool.\<close>

definition fix_run ::
  "os_env \<Rightarrow> string option \<Rightarrow> (string \<Rightarrow> proc_result) \<Rightarrow> view \<Rightarrow> view" where
  "fix_run env setting tool v =
     (if \<not> is_python v then tell (StatusMessage ''PythonRuff: Not a Python file'') v
      else case find_ruff_binary env setting of
        Inl e \<Rightarrow> tell (ErrorNotFound e) v
      | Inr ruff_binary \<Rightarrow>
          (let code = substr v (whole v)
           in case tool code of
                Completed returncode stdout stderr \<Rightarrow>
                  if returncode = 0 \<or> returncode = 1
                  then (if stdout \<noteq> [] \<and> stdout \<noteq> code
                        then tell (StatusMessage ''PythonRuff: Fixed issues successfully'')
                               (replace v (whole v) stdout)
                        else tell (StatusMessage ''PythonRuff: No fixable issues found'') v)
                  else tell (StatusFixFailed stderr) v
              | TimeoutExpired \<Rightarrow>
                  tell (ErrorMessage ''PythonRuff: Ruff execution timed out'') v
              | OtherFailure text \<Rightarrow>
                  tell (ErrorMessage (''PythonRuff: '' @ text)) v))"

section \<open>Lint\<close>

text \<open>
  The body of the loop of \<^verbatim>\<open>_show_diagnostics\<close>, in three parts: the start of the
  issue (row, column and the point in the buffer), the end point, and the entry that is
  stored.
\<close>

definition start_point :: "view_api \<Rightarrow> json \<Rightarrow> exn + (json \<times> json \<times> int)" where
  "start_point api diag =
     bindE (dict_get diag ''location'' (JObj [])) (\<lambda>location.
     bindE (dict_get location ''row'' (JInt 1)) (\<lambda>row.
     bindE (dict_get location ''column'' (JInt 1)) (\<lambda>column.
     bindE (minus_one row) (\<lambda>line.
     bindE (minus_one column) (\<lambda>col.
       Inr (row, column, view_text_point api line col))))))"

definition end_point :: "view_api \<Rightarrow> json \<Rightarrow> json \<Rightarrow> json \<Rightarrow> int \<Rightarrow> exn + int" where
  "end_point api diag row column point =
     bindE (dict_get diag ''end_location'' (JObj [])) (\<lambda>end_location.
       if truthy end_location
       then bindE (dict_get end_location ''row'' row) (\<lambda>end_row.
            bindE (dict_get end_location ''column'' column) (\<lambda>end_col.
            bindE (minus_one end_row) (\<lambda>end_line.
            bindE (minus_one end_col) (\<lambda>end_column.
              Inr (view_text_point api end_line end_column)))))
       else (let word_region = view_word api point
             in if region_empty word_region
                then Inr (region_end (view_line api point))
                else Inr (region_end word_region)))"

definition process_diag :: "view_api \<Rightarrow> json \<Rightarrow> exn + diagnostic" where
  "process_diag api diag =
     bindE (start_point api diag) (\<lambda>(row, column, point).
     bindE (end_point api diag row column point) (\<lambda>endp.
     bindE (dict_get diag ''code'' (JStr [])) (\<lambda>code.
     bindE (dict_get diag ''message'' (JStr [])) (\<lambda>message.
     bindE (dict_get diag ''url'' (JStr [])) (\<lambda>url.
     bindE (get_severity code) (\<lambda>severity.
       Inr \<lparr>d_region = Region point endp, d_code = code, d_message = message, d_url = url,
            d_severity = severity, d_row = row, d_col = column\<rparr>))))))"

text \<open>The loop: the entries in the order of the issues; the first exception ends it.\<close>

fun collect :: "view_api \<Rightarrow> json list \<Rightarrow> exn + diagnostic list" where
  "collect api [] = Inr []"
| "collect api (diag # rest) =
     bindE (process_diag api diag) (\<lambda>d.
     bindE (collect api rest) (\<lambda>ds. Inr (d # ds)))"

definition regions_of :: "severity \<Rightarrow> diagnostic list \<Rightarrow> region list" where
  "regions_of sev ds = map d_region (filter (\<lambda>d. d_severity d = sev) ds)"

text \<open>\<^verbatim>\<open>_show_in_exec_panel\<close>: nothing for an empty list.\<close>

definition show_in_exec_panel :: "diagnostic list \<Rightarrow> view \<Rightarrow> view" where
  "show_in_exec_panel ds v = (if ds = [] then v else v\<lparr>exec_panel := Some ds\<rparr>)"

text \<open>
  \<^verbatim>\<open>_show_diagnostics(diagnostics)\<close>. The view changes only after the loop: the list is
  stored, each non-empty region set is drawn, the count is reported and the panel filled.
\<close>

definition show_diagnostics :: "view_api \<Rightarrow> view \<Rightarrow> json \<Rightarrow> exn + view" where
  "show_diagnostics api v diagnostics =
     bindE (py_iter diagnostics) (\<lambda>items.
     bindE (collect api items) (\<lambda>all_diagnostics.
       (let error_regions = regions_of Error all_diagnostics;
            warning_regions = regions_of Warning all_diagnostics;
            info_regions = regions_of Info all_diagnostics;
            v1 = v\<lparr>ruff_diagnostics := Some all_diagnostics\<rparr>;
            v2 = (if error_regions \<noteq> [] then v1\<lparr>ruff_errors := error_regions\<rparr> else v1);
            v3 = (if warning_regions \<noteq> [] then v2\<lparr>ruff_warnings := warning_regions\<rparr> else v2);
            v4 = (if info_regions \<noteq> [] then v3\<lparr>ruff_info := info_regions\<rparr> else v3);
            total_issues = length error_regions + length warning_regions + length info_regions;
            v5 = tell (StatusFound total_issues) v4
        in Inr (show_in_exec_panel all_diagnostics v5))))"

text \<open>
  \<^verbatim>\<open>PythonRuffLintCommand.run\<close>. \<open>loads\<close> is \<^verbatim>\<open>json.loads\<close>, with \<open>None\<close> for the
  \<^verbatim>\<open>ValueError\<close> it raises on text that is not JSON. \<open>tool\<close> is the linter; it gets
  the buffer on standard input only when the view has no file name (\<open>lint_stdin\<close>). \<^verbatim>\<open>ValueError\<close> and
  \<^verbatim>\<open>AttributeError\<close> are caught next to the parse, any other exception by the outer
  handler.
\<close>

definition lint_stdin :: "view \<Rightarrow> string option" where
  "lint_stdin v =
     (let saved = (case file_name v of None \<Rightarrow> False | Some f \<Rightarrow> f \<noteq> [])
      in if saved then None else Some (substr v (whole v)))"

definition lint_run ::
  "os_env \<Rightarrow> string option \<Rightarrow> (string \<Rightarrow> json option) \<Rightarrow> view_api \<Rightarrow>
     (string option \<Rightarrow> proc_result) \<Rightarrow> view \<Rightarrow> view" where
  "lint_run env setting loads api tool v =
     (if \<not> is_python v then tell (StatusMessage ''PythonRuff: Not a Python file'') v
      else case find_ruff_binary env setting of
        Inl e \<Rightarrow> tell (ErrorNotFound e) v
      | Inr ruff_binary \<Rightarrow>
          (let v0 = erase_markers v
           in case tool (lint_stdin v0) of
                Completed returncode output error_output \<Rightarrow>
                  if returncode = 0
                  then tell (StatusMessage ''PythonRuff: No issues found'')
                         ((erase_markers v0)\<lparr>ruff_diagnostics := None\<rparr>)
                  else if returncode = 1
                  then (case (if output \<noteq> [] then loads output else Some (JArr [])) of
                          None \<Rightarrow>
                            tell (ErrorMessage ''PythonRuff: Failed to parse linter output'') v0
                        | Some diagnostics \<Rightarrow>
                            (case show_diagnostics api v0 diagnostics of
                               Inr v' \<Rightarrow> v'
                             | Inl AttributeError \<Rightarrow>
                                 tell (ErrorMessage ''PythonRuff: Failed to parse linter output'') v0
                             | Inl e \<Rightarrow> tell (ErrorException e) v0))
                  else tell (ErrorLintFailed (if error_output \<noteq> [] then error_output else output)) v0
              | TimeoutExpired \<Rightarrow>
                  tell (ErrorMessage ''PythonRuff: Ruff execution timed out'') v0
              | OtherFailure text \<Rightarrow>
                  tell (ErrorMessage (''PythonRuff: '' @ text)) v0))"

text \<open>\<^verbatim>\<open>PythonRuffClearLintCommand.run\<close>.\<close>

definition clear_run :: "view \<Rightarrow> view" where
  "clear_run v =
     tell (StatusMessage ''PythonRuff: Cleared lint markers'')
       ((erase_markers v)\<lparr>ruff_diagnostics := None\<rparr>)"

section \<open>Navigation\<close>

text \<open>The loop of \<^verbatim>\<open>PythonRuffNextErrorCommand.run\<close>: the first stored entry, in
  stored order, that begins after the cursor.\<close>

fun next_loop :: "int \<Rightarrow> diagnostic list \<Rightarrow> diagnostic option" where
  "next_loop current_pos [] = None"
| "next_loop current_pos (diag # rest) =
     (if region_begin (d_region diag) > current_pos then Some diag
      else next_loop current_pos rest)"

text \<open>The loop of \<^verbatim>\<open>PythonRuffPreviousErrorCommand.run\<close>, over the reversed list.\<close>

fun prev_loop :: "int \<Rightarrow> diagnostic list \<Rightarrow> diagnostic option" where
  "prev_loop current_pos [] = None"
| "prev_loop current_pos (diag # rest) =
     (if region_begin (d_region diag) < current_pos then Some diag
      else prev_loop current_pos rest)"

text \<open>Where a stored entry starts: \<^verbatim>\<open>region.begin()\<close> of its region.\<close>

definition span_start :: "diagnostic \<Rightarrow> int" where
  "span_start d = region_begin (d_region d)"

text \<open>The entry chosen: the loop's, or else the first (the last) of a non-empty list.\<close>

definition next_diag :: "int \<Rightarrow> diagnostic list \<Rightarrow> diagnostic option" where
  "next_diag current_pos diagnostics =
     (case next_loop current_pos diagnostics of
        Some d \<Rightarrow> Some d
      | None \<Rightarrow> (if diagnostics \<noteq> [] then Some (hd diagnostics) else None))"

definition prev_diag :: "int \<Rightarrow> diagnostic list \<Rightarrow> diagnostic option" where
  "prev_diag current_pos diagnostics =
     (case prev_loop current_pos (rev diagnostics) of
        Some d \<Rightarrow> Some d
      | None \<Rightarrow> (if diagnostics \<noteq> [] then Some (last diagnostics) else None))"

text \<open>Moving the cursor to an entry and naming it in the status bar.\<close>

definition goto_diag :: "diagnostic \<Rightarrow> view \<Rightarrow> view" where
  "goto_diag d v =
     tell (StatusDiagnostic (d_message d) (d_code d))
       (v\<lparr>sel := [d_region d], shown := Some (d_region d)\<rparr>)"

text \<open>The two commands. The cursor is \<^verbatim>\<open>self.view.sel()[0].begin()\<close>, which raises
  on a view without a selection.\<close>

definition next_error_run :: "view \<Rightarrow> exn + view" where
  "next_error_run v =
     (let diagnostics = (case ruff_diagnostics v of None \<Rightarrow> [] | Some ds \<Rightarrow> ds)
      in if diagnostics = [] then Inr (tell (StatusMessage ''PythonRuff: No errors found'') v)
         else case sel v of
                [] \<Rightarrow> Inl IndexError
              | first # others \<Rightarrow>
                  (let current_pos = region_begin first
                   in case next_diag current_pos diagnostics of
                        None \<Rightarrow> Inr v
                      | Some d \<Rightarrow> Inr (goto_diag d v)))"

definition previous_error_run :: "view \<Rightarrow> exn + view" where
  "previous_error_run v =
     (let diagnostics = (case ruff_diagnostics v of None \<Rightarrow> [] | Some ds \<Rightarrow> ds)
      in if diagnostics = [] then Inr (tell (StatusMessage ''PythonRuff: No errors found'') v)
         else case sel v of
                [] \<Rightarrow> Inl IndexError
              | first # others \<Rightarrow>
                  (let current_pos = region_begin first
                   in case prev_diag current_pos diagnostics of
                        None \<Rightarrow> Inr v
                      | Some d \<Rightarrow> Inr (goto_diag d v)))"

section \<open>Concrete inputs\<close>

text \<open>An environment where \<^verbatim>\<open>ruff\<close> is found in the second directory of the search
  path, a stored entry
  starting at a given offset, and a Python view that already holds one diagnostic.\<close>

definition example_env :: os_env where
  "example_env =
     \<lparr>os_exists = (\<lambda>p. p = ''/usr/bin/ruff''),
      os_isdir = (\<lambda>p. False),
      os_isfile = (\<lambda>p. p = ''/usr/bin/ruff''),
      os_access_x = (\<lambda>p. p = ''/usr/bin/ruff''),
      search_path = [''/usr/local/bin'', ''/usr/bin'']\<rparr>"


definition diag_at :: "int \<Rightarrow> diagnostic" where
  "diag_at n =
     \<lparr>d_region = Region n (n + 4), d_code = JStr ''F401'', d_message = JStr ''unused import'',
      d_url = JStr [], d_severity = Error, d_row = JInt 1, d_col = JInt (n + 1)\<rparr>"

definition example_view :: view where
  "example_view =
     \<lparr>is_python = True, file_name = Some ''/w/a.py'', buffer = ''import os'',
      sel = [Region 0 0], ruff_errors = [Region 7 9], ruff_warnings = [], ruff_info = [],
      ruff_diagnostics = Some [diag_at 7], shown = None, exec_panel = None, messages = []\<rparr>"

text \<open>The editor's functions on the one-line buffer \<^verbatim>\<open>hello world\<close>: the word at a
  point of \<^verbatim>\<open>hello\<close> is the region from 0 to 5, the line is the region from 0 to 11.\<close>

definition example_api :: view_api where
  "example_api =
     \<lparr>view_text_point = (\<lambda>row col. col),
      view_word = (\<lambda>p. if p < 5 then Region 0 5 else if p = 5 then Region 5 6 else Region 6 11),
      view_line = (\<lambda>p. Region 0 11)\<rparr>"

text \<open>The same line in an editor that finds no word at any point (every character a
  word separator): the word region is empty everywhere.\<close>

definition no_word_api :: view_api where
  "no_word_api =
     \<lparr>view_text_point = (\<lambda>row col. col),
      view_word = (\<lambda>p. Region p p),
      view_line = (\<lambda>p. Region 0 11)\<rparr>"

text \<open>An issue of the linter's output at row 1, column 3, without an end location.\<close>

definition example_issue :: json where
  "example_issue =
     JObj [(''code'', JStr ''F401''), (''message'', JStr ''unused import''),
           (''location'', JObj [(''row'', JInt 1), (''column'', JInt 3)])]"

section \<open>Severity: theorems\<close>

text \<open>
  C9. The classifier maps \<^verbatim>\<open>"E501"\<close> to error, \<^verbatim>\<open>"W605"\<close> and \<^verbatim>\<open>"RUF100"\<close> to
  warning, the empty code, the null code and the code missing from the issue object to
  error, and \<^verbatim>\<open>"ZZ1"\<close>, which has no recognised prefix, to info.
\<close>

theorem get_severity_examples:
  "get_severity (JStr ''E501'') = Inr Error \<and>
   get_severity (JStr ''W605'') = Inr Warning \<and>
   get_severity (JStr ''RUF100'') = Inr Warning \<and>
   get_severity (JStr '''') = Inr Error \<and>
   get_severity JNull = Inr Error \<and>
   bindE (code_of (JObj [(''message'', JStr ''m'')])) get_severity = Inr Error \<and>
   get_severity (JStr ''ZZ1'') = Inr Info"
  by (simp add: error_prefixes_def warning_prefixes_def startswith_def code_of_def bindE_def)

text \<open>
  C2. The classifier is meant to map a code that starts with one of the warning prefixes
  to warning. The prefixes \<^verbatim>\<open>EM\<close>, \<^verbatim>\<open>EXE\<close>, \<^verbatim>\<open>ERA\<close>, \<^verbatim>\<open>FLY\<close>, \<^verbatim>\<open>FURB\<close>
  and \<^verbatim>\<open>FIX\<close> are in the list of warning prefixes, but the first character of such a
  code is \<^verbatim>\<open>E\<close> or \<^verbatim>\<open>F\<close>, which is tested first: the code is classified as an
  error and the entry of the list is never reached.
\<close>

theorem get_severity_shadowed_prefixes:
  "''EM'' \<in> set warning_prefixes \<and> startswith ''EM101'' ''EM'' \<and>
   get_severity (JStr ''EM101'') = Inr Error \<and>
   get_severity (JStr ''EXE001'') = Inr Error \<and>
   get_severity (JStr ''ERA001'') = Inr Error \<and>
   get_severity (JStr ''FLY002'') = Inr Error \<and>
   get_severity (JStr ''FURB101'') = Inr Error \<and>
   get_severity (JStr ''FIX002'') = Inr Error"
  by (simp add: error_prefixes_def warning_prefixes_def startswith_def)

section \<open>Facts about the view\<close>

lemma substr_whole: "substr v (whole v) = buffer v"
  by (simp add: substr_def whole_def region_begin_def region_end_def)

lemma buffer_tell: "buffer (tell m v) = buffer v"
  by (simp add: tell_def)

lemma replace_whole: "buffer (replace v (whole v) s) = s"
  by (simp add: replace_def whole_def region_begin_def region_end_def)

lemma find_example: "find_ruff_binary example_env None = Inr ''/usr/bin/ruff''"
  by (simp add: find_ruff_binary_def example_env_def isabs_def sep_def shutil_which_def
      dirname_def path_join_def access_check_def Let_def)

section \<open>Fix: theorems\<close>

text \<open>
  C6. When the tool's exit code is neither 0 nor 1, fix does not replace the buffer; when
  the exit code is 0 or 1 and the output equals the buffer, it does not either. In both
  cases the run only adds a message to the view.
\<close>

theorem fix_safety:
  assumes "tool (buffer v) = Completed rc out err"
    and "(rc \<noteq> 0 \<and> rc \<noteq> 1) \<or> out = buffer v"
  shows "buffer (fix_run env setting tool v) = buffer v \<and>
         (\<exists>m. fix_run env setting tool v = tell m v)"
  using assms
  by (auto simp add: fix_run_def substr_whole buffer_tell Let_def split: sum.splits)

theorem fix_safety_witness:
  "buffer (fix_run example_env None (\<lambda>code. Completed 2 ''garbage'' ''error: boom'') example_view)
     = ''import os'' \<and>
   buffer (fix_run example_env None (\<lambda>code. Completed 1 code []) example_view) = ''import os''"
  using fix_safety [of "\<lambda>code. Completed 2 ''garbage'' ''error: boom''" example_view 2 "''garbage''" "''error: boom''" example_env None]
    fix_safety [of "\<lambda>code. Completed 1 code []" example_view 1 "''import os''" "[]" example_env None]
  by (simp add: example_view_def)

text \<open>
  C10. When the tool exits with 0 or 1 and prints nothing, fix leaves the buffer as it
  is and reports that there is nothing to fix: an empty result never replaces the text.
\<close>

theorem fix_never_blanks:
  assumes "tool (buffer v) = Completed rc [] err"
    and "rc = 0 \<or> rc = 1"
  shows "buffer (fix_run env setting tool v) = buffer v \<and>
         (is_python v \<longrightarrow> (\<forall>b. find_ruff_binary env setting = Inr b \<longrightarrow>
            fix_run env setting tool v =
              tell (StatusMessage ''PythonRuff: No fixable issues found'') v))"
  using assms
  by (auto simp add: fix_run_def substr_whole buffer_tell Let_def split: sum.splits)

theorem fix_never_blanks_witness:
  "buffer (fix_run example_env None (\<lambda>code. Completed 0 [] []) example_view) = ''import os'' \<and>
   fix_run example_env None (\<lambda>code. Completed 0 [] []) example_view =
     tell (StatusMessage ''PythonRuff: No fixable issues found'') example_view"
  using fix_never_blanks [of "\<lambda>code. Completed 0 [] []" example_view 0 "[]" example_env None]
    find_example
  by (simp add: example_view_def tell_def)

section \<open>Format: theorems\<close>

lemma format_run_completed:
  assumes "is_python v" and "find_ruff_binary env setting = Inr b" and "sel v = first # others"
    and "tool (substr v (if region_empty first \<or> \<not> use_selection then whole v else first))
           = Completed rc out err"
  shows "format_run env setting use_selection tool v =
     (let region = (if region_empty first \<or> \<not> use_selection then whole v else first)
      in if rc = 0
         then (if out \<noteq> substr v region
               then Inr (tell (StatusMessage ''PythonRuff: Formatted successfully'')
                          (replace v region out))
               else Inr (tell (StatusMessage ''PythonRuff: Already formatted'') v))
         else Inr (tell (StatusFormatFailed err) v))"
  using assms by (simp add: format_run_def Let_def)

text \<open>
  C8. When the formatter exits with 0 its output is the replacement of the formatted
  region: the region is overwritten with it exactly when it differs from the region's
  text, and otherwise the view only gets the message that it is already formatted. So
  when the formatter returns its own output unchanged, a second run on the whole buffer
  after a first one changes nothing.
\<close>

theorem format_writes_only_on_change:
  assumes py: "is_python v"
    and bin: "find_ruff_binary env setting = Inr b"
    and sel: "sel v = first # others"
    and reg: "region = (if region_empty first \<or> \<not> use_selection then whole v else first)"
    and out: "tool (substr v region) = Completed 0 out err"
  shows "format_run env setting use_selection tool v =
           (if out \<noteq> substr v region
            then Inr (tell (StatusMessage ''PythonRuff: Formatted successfully'')
                       (replace v region out))
            else Inr (tell (StatusMessage ''PythonRuff: Already formatted'') v)) \<and>
         (out = substr v region \<longrightarrow>
            (\<exists>v1. format_run env setting use_selection tool v = Inr v1 \<and> buffer v1 = buffer v)) \<and>
         (\<not> use_selection \<and> tool out = Completed 0 out err2 \<longrightarrow>
            (\<exists>v1. format_run env setting use_selection tool v = Inr v1 \<and> buffer v1 = out \<and>
               format_run env setting use_selection tool v1 =
                 Inr (tell (StatusMessage ''PythonRuff: Already formatted'') v1)))"
proof (intro conjI impI)
  show first_run: "format_run env setting use_selection tool v =
           (if out \<noteq> substr v region
            then Inr (tell (StatusMessage ''PythonRuff: Formatted successfully'')
                       (replace v region out))
            else Inr (tell (StatusMessage ''PythonRuff: Already formatted'') v))"
    using format_run_completed [OF py bin sel, of tool use_selection 0 out err] out reg
    by (simp add: Let_def)
  show "\<exists>v1. format_run env setting use_selection tool v = Inr v1 \<and> buffer v1 = buffer v"
    if "out = substr v region"
    using first_run that by (simp add: buffer_tell)
  show "\<exists>v1. format_run env setting use_selection tool v = Inr v1 \<and> buffer v1 = out \<and>
               format_run env setting use_selection tool v1 =
                 Inr (tell (StatusMessage ''PythonRuff: Already formatted'') v1)"
    if h: "\<not> use_selection \<and> tool out = Completed 0 out err2"
  proof -
    from h reg have r: "region = whole v" by simp
    obtain v1 where v1: "format_run env setting use_selection tool v = Inr v1"
      and v1_cases: "v1 = tell (StatusMessage ''PythonRuff: Formatted successfully'')
                       (replace v region out) \<or>
                     (v1 = tell (StatusMessage ''PythonRuff: Already formatted'') v \<and>
                      out = substr v region)"
      using first_run by (cases "out \<noteq> substr v region") auto
    have b1: "buffer v1 = out"
      using v1_cases r by (auto simp add: buffer_tell replace_whole substr_whole)
    have py1: "is_python v1" and sel1: "sel v1 = first # others"
      using v1_cases py sel by (auto simp add: tell_def replace_def)
    have t1: "tool (substr v1 (if region_empty first \<or> \<not> use_selection then whole v1 else first))
                = Completed 0 out err2"
      using h b1 by (simp add: substr_whole)
    have "format_run env setting use_selection tool v1 =
            Inr (tell (StatusMessage ''PythonRuff: Already formatted'') v1)"
      using format_run_completed [where v = v1 and tool = tool and rc = 0 and out = out
          and err = err2 and use_selection = use_selection, OF py1 bin sel1 t1] h b1
      by (simp add: Let_def substr_whole)
    with v1 b1 show ?thesis by blast
  qed
qed

theorem format_writes_only_on_change_witness:
  "format_run example_env None False (\<lambda>code. Completed 0 ''import os\<newline>'' []) example_view =
     Inr (tell (StatusMessage ''PythonRuff: Formatted successfully'')
           (replace example_view (whole example_view) ''import os\<newline>'')) \<and>
   (\<exists>v1. format_run example_env None False (\<lambda>code. Completed 0 ''import os\<newline>'' []) example_view
           = Inr v1 \<and> buffer v1 = ''import os\<newline>'' \<and>
         format_run example_env None False (\<lambda>code. Completed 0 ''import os\<newline>'' []) v1 =
           Inr (tell (StatusMessage ''PythonRuff: Already formatted'') v1))"
proof -
  have py: "is_python example_view"
    by (simp add: example_view_def)
  have sel: "sel example_view = Region 0 0 # []"
    by (simp add: example_view_def)
  have reg: "whole example_view =
      (if region_empty (Region 0 0) \<or> \<not> False then whole example_view else Region 0 0)"
    by simp
  have out: "(\<lambda>code. Completed 0 ''import os\<newline>'' []) (substr example_view (whole example_view))
      = Completed 0 ''import os\<newline>'' []"
    by simp
  have buf: "substr example_view (whole example_view) = ''import os''"
    by (simp add: substr_whole example_view_def)
  have ne: "''import os\<newline>'' \<noteq> substr example_view (whole example_view)"
    by (simp add: buf)
  note th = format_writes_only_on_change [OF py find_example sel reg out, of "[]"]
  have c1: "format_run example_env None False (\<lambda>code. Completed 0 ''import os\<newline>'' [])
      example_view =
     Inr (tell (StatusMessage ''PythonRuff: Formatted successfully'')
           (replace example_view (whole example_view) ''import os\<newline>''))"
    using th [THEN conjunct1] ne by simp
  have c3: "\<exists>v1. format_run example_env None False (\<lambda>code. Completed 0 ''import os\<newline>'' [])
           example_view = Inr v1 \<and> buffer v1 = ''import os\<newline>'' \<and>
         format_run example_env None False (\<lambda>code. Completed 0 ''import os\<newline>'' []) v1 =
           Inr (tell (StatusMessage ''PythonRuff: Already formatted'') v1)"
    using th [THEN conjunct2, THEN conjunct2] by simp
  show ?thesis
    using c1 c3 by (rule conjI)
qed

section \<open>Locating the tool: theorems\<close>









section \<open>Lint: theorems\<close>

lemma lint_stdin_erase: "lint_stdin (erase_markers v) = lint_stdin v"
  by (simp add: lint_stdin_def erase_markers_def substr_def whole_def)

text \<open>
  C1, for a non-empty output. When the linter exits with 1 and prints a non-empty text
  that is not valid JSON, the run reports the parse failure and leaves the stored diagnostics as
  they were; the three region sets drawn in the view have been erased at the start of
  the run.
\<close>

theorem lint_parse_failure:
  assumes py: "is_python v"
    and bin: "find_ruff_binary env setting = Inr b"
    and run: "tool (lint_stdin v) = Completed 1 out err"
    and nonempty: "out \<noteq> []"
    and invalid: "loads out = None"
  shows "lint_run env setting loads api tool v =
           tell (ErrorMessage ''PythonRuff: Failed to parse linter output'') (erase_markers v) \<and>
         ruff_diagnostics (lint_run env setting loads api tool v) = ruff_diagnostics v \<and>
         ruff_errors (lint_run env setting loads api tool v) = [] \<and>
         ruff_warnings (lint_run env setting loads api tool v) = [] \<and>
         ruff_info (lint_run env setting loads api tool v) = []"
proof -
  have "lint_run env setting loads api tool v =
      tell (ErrorMessage ''PythonRuff: Failed to parse linter output'') (erase_markers v)"
    using assms by (simp add: lint_run_def lint_stdin_erase Let_def)
  then show ?thesis
    by (simp add: tell_def erase_markers_def)
qed

theorem lint_parse_failure_witness:
  "lint_run example_env None (\<lambda>text. None) example_api (\<lambda>i. Completed 1 ''oops'' []) example_view =
     tell (ErrorMessage ''PythonRuff: Failed to parse linter output'') (erase_markers example_view) \<and>
   ruff_diagnostics (lint_run example_env None (\<lambda>text. None) example_api
      (\<lambda>i. Completed 1 ''oops'' []) example_view) = Some [diag_at 7]"
proof -
  have py: "is_python example_view"
    by (simp add: example_view_def)
  have st: "ruff_diagnostics example_view = Some [diag_at 7]"
    by (simp add: example_view_def)
  have ne: "''oops'' \<noteq> []"
    by simp
  note th = lint_parse_failure [where tool = "\<lambda>i. Completed 1 ''oops'' []"
      and loads = "\<lambda>text. None" and out = "''oops''" and err = "[]"
      and api = example_api, OF py find_example refl ne refl]
  have c1: "lint_run example_env None (\<lambda>text. None) example_api (\<lambda>i. Completed 1 ''oops'' [])
        example_view =
      tell (ErrorMessage ''PythonRuff: Failed to parse linter output'')
        (erase_markers example_view)"
    using th by (rule conjunct1)
  have "ruff_diagnostics (lint_run example_env None (\<lambda>text. None) example_api
      (\<lambda>i. Completed 1 ''oops'' []) example_view) = ruff_diagnostics example_view"
    using th [THEN conjunct2] by (rule conjunct1)
  then have c2: "ruff_diagnostics (lint_run example_env None (\<lambda>text. None) example_api
      (\<lambda>i. Completed 1 ''oops'' []) example_view) = Some [diag_at 7]"
    using st by (rule trans)
  show ?thesis
    using c1 c2 by (rule conjI)
qed

text \<open>
  C1 does not hold for the empty output, which is not valid JSON either: the command
  does not hand it to the parser (which would raise on it) but takes it for an empty
  list of issues, so the stored diagnostics are replaced by the empty list and the
  message is the count of issues, not a parse failure.
\<close>

theorem lint_empty_output_clears:
  "ruff_diagnostics example_view = Some [diag_at 7] \<and>
   ruff_diagnostics
     (lint_run example_env None (\<lambda>text. None) example_api (\<lambda>i. Completed 1 [] []) example_view)
     = Some [] \<and>
   messages
     (lint_run example_env None (\<lambda>text. None) example_api (\<lambda>i. Completed 1 [] []) example_view)
     = [StatusFound 0]"
  by (simp add: lint_run_def find_example example_view_def Let_def show_diagnostics_def
      bindE_def regions_of_def show_in_exec_panel_def tell_def erase_markers_def)

text \<open>
  What the loop stores for an issue without an end location: the span starts at the
  issue's start point and ends where the word at that point ends; when the editor gives
  an empty word region there, it ends at the end of the line that contains the point.
\<close>

theorem span_without_end_location:
  assumes start: "start_point api diag = Inr (row, column, point)"
    and lacks: "dict_get diag ''end_location'' (JObj []) = Inr e" "\<not> truthy e"
    and parsed: "process_diag api diag = Inr d"
  shows "d_region d =
           Region point
             (if region_empty (view_word api point)
              then region_end (view_line api point)
              else region_end (view_word api point))"
proof -
  have "end_point api diag row column point =
          Inr (if region_empty (view_word api point)
               then region_end (view_line api point)
               else region_end (view_word api point))"
    using lacks by (simp add: end_point_def bindE_def Let_def)
  with start parsed show ?thesis
    by (auto simp add: process_diag_def bindE_def split: sum.splits)
qed

theorem span_without_end_location_witness:
  "process_diag example_api example_issue = Inr (diag_at 2\<lparr>d_region := Region 2 5, d_col := JInt 3\<rparr>) \<and>
   d_region (diag_at 2\<lparr>d_region := Region 2 5, d_col := JInt 3\<rparr>) = Region 2 5"
proof -
  have start: "start_point example_api example_issue = Inr (JInt 1, JInt 3, 2)"
    by (simp add: start_point_def example_issue_def example_api_def bindE_def)
  have lacks: "dict_get example_issue ''end_location'' (JObj []) = Inr (JObj [])"
    by (simp add: example_issue_def)
  have nt: "\<not> truthy (JObj [])"
    by simp
  have parsed: "process_diag example_api example_issue =
      Inr (diag_at 2\<lparr>d_region := Region 2 5, d_col := JInt 3\<rparr>)"
    by (simp add: process_diag_def start_point_def end_point_def example_issue_def
        example_api_def bindE_def diag_at_def region_empty_def region_end_def
        error_prefixes_def)
  show ?thesis
    using span_without_end_location [OF start lacks nt parsed] parsed
    by (simp add: example_api_def region_empty_def region_end_def)
qed

text \<open>
  C5. For an issue without an end location the span is meant to be the word at the start
  point, and the whole line when there is no word; the comments at the computation say
  so. The span that is stored starts at the start point instead. In \<^verbatim>\<open>hello world\<close>
  an issue at column 3 is given the span from 2 to 5, and the word there is the region
  from 0 to 5. Where the editor finds no word, the same issue is given the span from 2
  to 11, and the line is the region from 0 to 11.
\<close>

theorem span_is_not_the_word:
  "map_sum id d_region (process_diag example_api example_issue) = Inr (Region 2 5) \<and>
   view_word example_api 2 = Region 0 5 \<and> \<not> region_empty (Region 0 5) \<and>
   Region 2 5 \<noteq> Region 0 5 \<and>
   map_sum id d_region (process_diag no_word_api example_issue) = Inr (Region 2 11) \<and>
   region_empty (view_word no_word_api 2) \<and> view_line no_word_api 2 = Region 0 11 \<and>
   Region 2 11 \<noteq> Region 0 11"
  by (simp add: process_diag_def start_point_def end_point_def example_issue_def
      example_api_def no_word_api_def bindE_def region_empty_def region_end_def
      error_prefixes_def)

section \<open>Navigation: theorems\<close>

lemma next_loop_None: "next_loop pos ds = None \<longleftrightarrow> (\<forall>d\<in>set ds. \<not> pos < span_start d)"
  by (induction ds) (auto simp add: span_start_def)

lemma next_loop_Some:
  "next_loop pos ds = Some d \<Longrightarrow>
     \<exists>pre post. ds = pre @ d # post \<and> pos < span_start d \<and> (\<forall>x\<in>set pre. \<not> pos < span_start x)"
proof (induction ds)
  case Nil
  then show ?case by simp
next
  case (Cons a ds)
  show ?case
  proof (cases "pos < span_start a")
    case True
    with Cons.prems have "d = a" by (simp add: span_start_def)
    with True have "a # ds = [] @ d # ds \<and> pos < span_start d \<and> (\<forall>x\<in>set []. \<not> pos < span_start x)"
      by simp
    then show ?thesis by blast
  next
    case False
    with Cons.prems have "next_loop pos ds = Some d" by (simp add: span_start_def)
    from Cons.IH [OF this] obtain pre post where
      "ds = pre @ d # post" "pos < span_start d" "\<forall>x\<in>set pre. \<not> pos < span_start x"
      by blast
    with False have "a # ds = (a # pre) @ d # post \<and> pos < span_start d \<and>
        (\<forall>x\<in>set (a # pre). \<not> pos < span_start x)"
      by simp
    then show ?thesis by blast
  qed
qed

lemma prev_loop_None: "prev_loop pos ds = None \<longleftrightarrow> (\<forall>d\<in>set ds. \<not> span_start d < pos)"
  by (induction ds) (auto simp add: span_start_def)

lemma prev_loop_Some:
  "prev_loop pos ds = Some d \<Longrightarrow>
     \<exists>pre post. ds = pre @ d # post \<and> span_start d < pos \<and> (\<forall>x\<in>set pre. \<not> span_start x < pos)"
proof (induction ds)
  case Nil
  then show ?case by simp
next
  case (Cons a ds)
  show ?case
  proof (cases "span_start a < pos")
    case True
    with Cons.prems have "d = a" by (simp add: span_start_def)
    with True have "a # ds = [] @ d # ds \<and> span_start d < pos \<and> (\<forall>x\<in>set []. \<not> span_start x < pos)"
      by simp
    then show ?thesis by blast
  next
    case False
    with Cons.prems have "prev_loop pos ds = Some d" by (simp add: span_start_def)
    from Cons.IH [OF this] obtain pre post where
      "ds = pre @ d # post" "span_start d < pos" "\<forall>x\<in>set pre. \<not> span_start x < pos"
      by blast
    with False have "a # ds = (a # pre) @ d # post \<and> span_start d < pos \<and>
        (\<forall>x\<in>set (a # pre). \<not> span_start x < pos)"
      by simp
    then show ?thesis by blast
  qed
qed

text \<open>Without any assumption on the order: next is the first entry in stored order that
  starts after the cursor, previous the last one that starts before it.\<close>

lemma next_diag_first_in_order:
  assumes "\<exists>d\<in>set ds. pos < span_start d"
  shows "\<exists>pre d post. ds = pre @ d # post \<and> next_diag pos ds = Some d \<and> pos < span_start d \<and>
           (\<forall>x\<in>set pre. \<not> pos < span_start x)"
proof -
  from assms obtain d where d: "next_loop pos ds = Some d"
    using next_loop_None [of pos ds] by (cases "next_loop pos ds") auto
  then have "next_diag pos ds = Some d" by (simp add: next_diag_def)
  with next_loop_Some [OF d] show ?thesis by blast
qed

lemma prev_diag_last_in_order:
  assumes "\<exists>d\<in>set ds. span_start d < pos"
  shows "\<exists>pre d post. ds = pre @ d # post \<and> prev_diag pos ds = Some d \<and> span_start d < pos \<and>
           (\<forall>x\<in>set post. \<not> span_start x < pos)"
proof -
  from assms obtain d where d: "prev_loop pos (rev ds) = Some d"
    using prev_loop_None [of pos "rev ds"] by (cases "prev_loop pos (rev ds)") auto
  then have pd: "prev_diag pos ds = Some d" by (simp add: prev_diag_def)
  from prev_loop_Some [OF d] obtain pre post where
    r: "rev ds = pre @ d # post" and lt: "span_start d < pos"
    and none: "\<forall>x\<in>set pre. \<not> span_start x < pos"
    by blast
  from r have "rev (rev ds) = rev (pre @ d # post)" by (rule arg_cong)
  then have "ds = rev post @ d # rev pre" by simp
  moreover from none have "\<forall>x\<in>set (rev pre). \<not> span_start x < pos" by simp
  ultimately show ?thesis using pd lt by blast
qed

lemma next_diag_wraps:
  "ds \<noteq> [] \<Longrightarrow> \<forall>d\<in>set ds. \<not> pos < span_start d \<Longrightarrow> next_diag pos ds = Some (hd ds)"
  using next_loop_None [of pos ds] by (simp add: next_diag_def)

lemma prev_diag_wraps:
  "ds \<noteq> [] \<Longrightarrow> \<forall>d\<in>set ds. \<not> span_start d < pos \<Longrightarrow> prev_diag pos ds = Some (last ds)"
  using prev_loop_None [of pos "rev ds"] by (simp add: prev_diag_def)

lemma sorted_split_le:
  assumes "sorted (map span_start (pre @ d # post))"
  shows "(\<forall>x\<in>set post. span_start d \<le> span_start x) \<and> (\<forall>x\<in>set pre. span_start x \<le> span_start d)"
  using assms by (auto simp add: sorted_append)

text \<open>
  C3, for entries stored in ascending order of their span starts:
  next gives an entry whose start is the smallest one strictly greater than the cursor,
  previous one whose start is the largest one strictly less than it; when no entry
  qualifies, next gives the first entry and previous the last; on the empty list both
  give nothing. With entries starting at 10, 50 and 90 and the cursor at 90, next gives
  the entry at 10 and previous the entry at 50.
\<close>

theorem navigation_on_ordered:
  assumes ord: "sorted (map span_start ds)"
  shows "next_diag pos [] = None \<and> prev_diag pos [] = None \<and>
    (ds \<noteq> [] \<longrightarrow>
      (if \<exists>d\<in>set ds. pos < span_start d
       then \<exists>d\<in>set ds. next_diag pos ds = Some d \<and> pos < span_start d \<and>
              (\<forall>x\<in>set ds. pos < span_start x \<longrightarrow> span_start d \<le> span_start x)
       else next_diag pos ds = Some (hd ds)) \<and>
      (if \<exists>d\<in>set ds. span_start d < pos
       then \<exists>d\<in>set ds. prev_diag pos ds = Some d \<and> span_start d < pos \<and>
              (\<forall>x\<in>set ds. span_start x < pos \<longrightarrow> span_start x \<le> span_start d)
       else prev_diag pos ds = Some (last ds))) \<and>
    next_diag 90 [diag_at 10, diag_at 50, diag_at 90] = Some (diag_at 10) \<and>
    prev_diag 90 [diag_at 10, diag_at 50, diag_at 90] = Some (diag_at 50)"
proof -
  have empty: "next_diag pos [] = None \<and> prev_diag pos [] = None"
    by (simp add: next_diag_def prev_diag_def)
  have nxt: "\<exists>d\<in>set ds. next_diag pos ds = Some d \<and> pos < span_start d \<and>
              (\<forall>x\<in>set ds. pos < span_start x \<longrightarrow> span_start d \<le> span_start x)"
    if "\<exists>d\<in>set ds. pos < span_start d"
  proof -
    from next_diag_first_in_order [OF that] obtain pre d post where
      ds: "ds = pre @ d # post" and res: "next_diag pos ds = Some d" and gt: "pos < span_start d"
      and none: "\<forall>x\<in>set pre. \<not> pos < span_start x"
      by blast
    from ord ds have "\<forall>x\<in>set post. span_start d \<le> span_start x"
      using sorted_split_le by blast
    with none ds have "\<forall>x\<in>set ds. pos < span_start x \<longrightarrow> span_start d \<le> span_start x"
      by auto
    moreover from ds have "d \<in> set ds" by simp
    ultimately show ?thesis using res gt by blast
  qed
  have prv: "\<exists>d\<in>set ds. prev_diag pos ds = Some d \<and> span_start d < pos \<and>
              (\<forall>x\<in>set ds. span_start x < pos \<longrightarrow> span_start x \<le> span_start d)"
    if "\<exists>d\<in>set ds. span_start d < pos"
  proof -
    from prev_diag_last_in_order [OF that] obtain pre d post where
      ds: "ds = pre @ d # post" and res: "prev_diag pos ds = Some d" and lt: "span_start d < pos"
      and none: "\<forall>x\<in>set post. \<not> span_start x < pos"
      by blast
    from ord ds have "\<forall>x\<in>set pre. span_start x \<le> span_start d"
      using sorted_split_le by blast
    with none ds have "\<forall>x\<in>set ds. span_start x < pos \<longrightarrow> span_start x \<le> span_start d"
      by auto
    moreover from ds have "d \<in> set ds" by simp
    ultimately show ?thesis using res lt by blast
  qed
  have ex: "next_diag 90 [diag_at 10, diag_at 50, diag_at 90] = Some (diag_at 10) \<and>
    prev_diag 90 [diag_at 10, diag_at 50, diag_at 90] = Some (diag_at 50)"
    by (simp add: next_diag_def prev_diag_def diag_at_def region_begin_def)
  show ?thesis
    using empty nxt prv ex next_diag_wraps [of ds pos] prev_diag_wraps [of ds pos]
    by (simp only: simp_thms if_True if_False split: if_split) blast
qed

theorem navigation_on_ordered_witness:
  "sorted (map span_start [diag_at 10, diag_at 50, diag_at 90]) \<and>
   next_diag 20 [diag_at 10, diag_at 50, diag_at 90] = Some (diag_at 50) \<and>
   prev_diag 20 [diag_at 10, diag_at 50, diag_at 90] = Some (diag_at 10) \<and>
   next_diag 90 [diag_at 10, diag_at 50, diag_at 90] = Some (diag_at 10) \<and>
   prev_diag 10 [diag_at 10, diag_at 50, diag_at 90] = Some (diag_at 90)"
  using navigation_on_ordered [of "[diag_at 10, diag_at 50, diag_at 90]" 20]
    navigation_on_ordered [of "[diag_at 10, diag_at 50, diag_at 90]" 90]
    navigation_on_ordered [of "[diag_at 10, diag_at 50, diag_at 90]" 10]
  by (simp add: span_start_def diag_at_def region_begin_def next_diag_def prev_diag_def)

text \<open>
  C3 does not hold for every stored sequence: it fails when the entries are not in
  ascending order: with entries starting at 50 and 10 in this order and the cursor at 0, next
  gives the entry at 50 although the entry at 10 also starts after the cursor; with the
  cursor at 60, previous gives the entry at 10 although the entry at 50 also starts
  before it.
\<close>

theorem navigation_unordered_counterexample:
  "next_diag 0 [diag_at 50, diag_at 10] = Some (diag_at 50) \<and>
   span_start (diag_at 50) = 50 \<and> span_start (diag_at 10) = 10 \<and>
   prev_diag 60 [diag_at 50, diag_at 10] = Some (diag_at 10)"
  by (simp add: next_diag_def prev_diag_def diag_at_def region_begin_def span_start_def)

section \<open>Finding the configuration file: theorems\<close>

lemma all_sep_iff: "(\<forall>x\<in>set h. x = c) \<longleftrightarrow> h = replicate (length h) c"
  by (metis in_set_replicate replicate_length_same)

lemma dirname_isabs:
  assumes "isabs p"
  shows "isabs (dirname p)"
proof -
  define h where "h = rev (dropWhile (\<lambda>c. c \<noteq> sep) (rev p))"
  from assms have pne: "p \<noteq> []" and hdp: "hd p = sep"
    by (simp_all add: isabs_def)
  then have "sep \<in> set (rev p)"
    using hd_in_set [of p] by simp
  then have "dropWhile (\<lambda>c. c \<noteq> sep) (rev p) \<noteq> []"
    by (auto simp add: dropWhile_eq_Nil_conv)
  then have hne: "h \<noteq> []"
    by (simp add: h_def)
  obtain t1 where t1: "p = h @ t1"
    unfolding h_def using rev_dropWhile_prefix by blast
  with hne hdp have hdh: "hd h = sep"
    by (metis hd_append2)
  show ?thesis
  proof (cases "h = replicate (length h) sep")
    case True
    then have "dirname p = h"
      by (simp add: dirname_def h_def [symmetric] Let_def)
    with hne hdh show ?thesis by (simp add: isabs_def)
  next
    case False
    define s where "s = rev (dropWhile (\<lambda>c. c = sep) (rev h))"
    from False hne have d: "dirname p = s"
      by (simp add: dirname_def h_def [symmetric] s_def Let_def)
    from False have "\<not> (\<forall>x\<in>set (rev h). x = sep)"
      using all_sep_iff [of h sep] by simp
    then have "dropWhile (\<lambda>c. c = sep) (rev h) \<noteq> []"
      by (simp add: dropWhile_eq_Nil_conv)
    then have sne: "s \<noteq> []"
      by (simp add: s_def)
    obtain t2 where "h = s @ t2"
      unfolding s_def using rev_dropWhile_prefix by blast
    with sne hdh have "hd s = sep"
      by (metis hd_append2)
    with sne d show ?thesis by (simp add: isabs_def)
  qed
qed

lemma dirname_fixpoint_root:
  assumes "isabs p" and fixp: "dirname p = p"
  shows "p = replicate (length p) sep"
proof -
  define h where "h = rev (dropWhile (\<lambda>c. c \<noteq> sep) (rev p))"
  from assms have pne: "p \<noteq> []"
    by (simp add: isabs_def)
  show ?thesis
  proof (cases "h \<noteq> [] \<and> h \<noteq> replicate (length h) sep")
    case False
    then have "dirname p = h"
      by (auto simp add: dirname_def h_def [symmetric] Let_def)
    with fixp have "h = p" by simp
    with False pne show ?thesis by simp
  next
    case True
    define s where "s = rev (dropWhile (\<lambda>c. c = sep) (rev h))"
    from True have "dirname p = s"
      by (simp add: dirname_def h_def [symmetric] s_def Let_def)
    with fixp have ps: "p = s" by simp
    then have "rev p = dropWhile (\<lambda>c. c = sep) (rev h)"
      by (simp add: s_def)
    moreover from pne have "rev p \<noteq> []" by simp
    ultimately have "hd (rev p) \<noteq> sep"
      using hd_dropWhile [of "\<lambda>c. c = sep" "rev h"] by simp
    then have "length (dropWhile (\<lambda>c. c \<noteq> sep) (rev p)) < length (rev p)"
      using \<open>rev p \<noteq> []\<close> length_dropWhile_le [of "\<lambda>c. c \<noteq> sep" "tl (rev p)"]
      by (cases "rev p") simp_all
    then have lt: "length h < length p"
      by (simp add: h_def)
    obtain t2 where "h = s @ t2"
      unfolding s_def using rev_dropWhile_prefix by blast
    then have "length s \<le> length h" by simp
    with lt ps show ?thesis by simp
  qed
qed

lemma ancestors_last_isabs: "isabs d \<Longrightarrow> isabs (last (ancestors d))"
proof (induction d rule: ancestors.induct)
  case (1 d)
  show ?case
  proof (cases "dirname d = d")
    case True
    then have "ancestors d = [d]" by (subst ancestors.simps) simp
    with "1.prems" show ?thesis by simp
  next
    case False
    have ne: "ancestors (dirname d) \<noteq> []"
      by (subst ancestors.simps) simp
    have "ancestors d = d # ancestors (dirname d)"
      using False by (subst ancestors.simps) simp
    then have "last (ancestors d) = last (ancestors (dirname d))"
      using ne by simp
    then show ?thesis
      using "1.IH" [OF False dirname_isabs [OF "1.prems"]] by simp
  qed
qed

lemma check_names_find:
  "check_names isfile d names = find isfile (map (path_join d) names)"
  by (induction names) (simp_all add: Let_def)

lemma find_append_cases:
  "find P (xs @ ys) = (case find P xs of Some x \<Rightarrow> Some x | None \<Rightarrow> find P ys)"
  by (induction xs) simp_all

lemma walk_up_nearest: "walk_up isfile d = nearest_config isfile d"
proof (induction d rule: ancestors.induct)
  case (1 d)
  show ?case
  proof (cases "dirname d = d")
    case True
    have "ancestors d = [d]"
      using True by (subst ancestors.simps) simp
    then have "nearest_config isfile d = find isfile (map (path_join d) config_names)"
      by (simp add: nearest_config_def candidates_def)
    moreover have "walk_up isfile d = check_names isfile d config_names"
      using True by (subst walk_up.simps) (simp add: Let_def split: option.splits)
    ultimately show ?thesis by (simp add: check_names_find)
  next
    case False
    have "ancestors d = d # ancestors (dirname d)"
      using False by (subst ancestors.simps) simp
    then have "candidates d = map (path_join d) config_names @ candidates (dirname d)"
      by (simp add: candidates_def)
    then have n: "nearest_config isfile d =
        (case find isfile (map (path_join d) config_names) of
           Some x \<Rightarrow> Some x
         | None \<Rightarrow> nearest_config isfile (dirname d))"
      by (simp only: nearest_config_def find_append_cases)
    have w: "walk_up isfile d =
        (case check_names isfile d config_names of
           Some x \<Rightarrow> Some x
         | None \<Rightarrow> walk_up isfile (dirname d))"
      using False by (subst walk_up.simps) (simp add: Let_def split: option.splits)
    show ?thesis
      using n w "1.IH" [OF False] by (simp add: check_names_find split: option.splits)
  qed
qed

lemma ancestors_hd: "hd (ancestors d) = d"
  by (subst ancestors.simps) simp

lemma ancestors_last: "dirname (last (ancestors d)) = last (ancestors d)"
proof (induction d rule: ancestors.induct)
  case (1 d)
  show ?case
  proof (cases "dirname d = d")
    case True
    then show ?thesis by (subst (1 2) ancestors.simps) simp
  next
    case False
    have ne: "ancestors (dirname d) \<noteq> []"
      by (subst ancestors.simps) simp
    have "ancestors d = d # ancestors (dirname d)"
      using False by (subst ancestors.simps) simp
    then have "last (ancestors d) = last (ancestors (dirname d))"
      using ne by simp
    then show ?thesis using "1.IH" [OF False] by simp
  qed
qed

lemma ancestors_step:
  "Suc i < length (ancestors d) \<Longrightarrow> ancestors d ! Suc i = dirname (ancestors d ! i)"
proof (induction d arbitrary: i rule: ancestors.induct)
  case (1 d)
  show ?case
  proof (cases "dirname d = d")
    case True
    then have "ancestors d = [d]" by (subst ancestors.simps) simp
    with "1.prems" show ?thesis by simp
  next
    case False
    have a: "ancestors d = d # ancestors (dirname d)"
      using False by (subst ancestors.simps) simp
    show ?thesis
    proof (cases i)
      case 0
      have "ancestors (dirname d) \<noteq> []"
        by (subst ancestors.simps) simp
      then have "ancestors (dirname d) ! 0 = dirname d"
        using ancestors_hd [of "dirname d"] by (simp add: hd_conv_nth)
      with a 0 show ?thesis by simp
    next
      case (Suc j)
      with "1.prems" a have "Suc j < length (ancestors (dirname d))" by simp
      from "1.IH" [OF False this] show ?thesis using a Suc by simp
    qed
  qed
qed

lemma ancestors_root:
  assumes "isabs d"
  shows "last (ancestors d) = replicate (length (last (ancestors d))) sep"
  using dirname_fixpoint_root [OF ancestors_last_isabs [OF assms] ancestors_last] .

text \<open>
  C4. An absent (or empty) path gives no configuration file. For any other path the
  result is the first existing file among the candidates, which are, for the containing
  directory and then each parent in turn, the names \<^verbatim>\<open>ruff.toml\<close>, \<^verbatim>\<open>.ruff.toml\<close>
  and \<^verbatim>\<open>pyproject.toml\<close> in this order; the walk starts at the containing directory,
  each further directory is the parent of the one before, and the last one is its own
  parent, which for an absolute path is the root. With \<^verbatim>\<open>pyproject.toml\<close> only in
  \<^verbatim>\<open>a\<close>, resolving \<^verbatim>\<open>a/b/c/file.py\<close> gives \<^verbatim>\<open>a/pyproject.toml\<close>; with no
  configuration file on the walk it gives nothing.
\<close>

theorem config_resolution:
  "get_ruff_config_file abspath isfile None = None \<and>
   get_ruff_config_file abspath isfile (Some []) = None \<and>
   (fp \<noteq> [] \<longrightarrow>
      get_ruff_config_file abspath isfile (Some fp) =
        find isfile (candidates (dirname (abspath fp)))) \<and>
   candidates d = concat (map (\<lambda>dir. map (path_join dir) config_names) (ancestors d)) \<and>
   config_names = [''ruff.toml'', ''.ruff.toml'', ''pyproject.toml''] \<and>
   hd (ancestors d) = d \<and>
   (\<forall>i. Suc i < length (ancestors d) \<longrightarrow> ancestors d ! Suc i = dirname (ancestors d ! i)) \<and>
   dirname (last (ancestors d)) = last (ancestors d) \<and>
   (isabs d \<longrightarrow> last (ancestors d) = replicate (length (last (ancestors d))) sep) \<and>
   get_ruff_config_file (\<lambda>p. ''/w/'' @ p) (\<lambda>f. f = ''/w/a/pyproject.toml'')
     (Some ''a/b/c/file.py'') = Some ''/w/a/pyproject.toml'' \<and>
   get_ruff_config_file (\<lambda>p. ''/w/'' @ p) (\<lambda>f. False) (Some ''a/b/c/file.py'') = None"
proof -
  have general: "fp \<noteq> [] \<longrightarrow>
      get_ruff_config_file abspath isfile (Some fp) =
        find isfile (candidates (dirname (abspath fp)))"
    using walk_up_nearest [of isfile "dirname (abspath fp)"]
    by (simp add: get_ruff_config_file_def nearest_config_def Let_def)
  have absent: "get_ruff_config_file abspath isfile None = None \<and>
      get_ruff_config_file abspath isfile (Some []) = None"
    by (simp add: get_ruff_config_file_def)
  have ex1: "get_ruff_config_file (\<lambda>p. ''/w/'' @ p) (\<lambda>f. f = ''/w/a/pyproject.toml'')
     (Some ''a/b/c/file.py'') = Some ''/w/a/pyproject.toml''"
    by (simp add: get_ruff_config_file_def dirname_def sep_def walk_up.simps config_names_def
        path_join_def Let_def)
  have ex2: "get_ruff_config_file (\<lambda>p. ''/w/'' @ p) (\<lambda>f. False) (Some ''a/b/c/file.py'') = None"
    by (simp add: get_ruff_config_file_def dirname_def sep_def walk_up.simps config_names_def
        path_join_def Let_def)
  show ?thesis
    using general absent ex1 ex2 ancestors_hd [of d] ancestors_step [of _ d] ancestors_last [of d]
      ancestors_root [of d]
    by (simp only: candidates_def config_names_def simp_thms) blast
qed

theorem config_resolution_witness:
  "get_ruff_config_file (\<lambda>p. ''/home/u/'' @ p) (\<lambda>f. f = ''/home/u/a/ruff.toml'' \<or> f = ''/home/u/pyproject.toml'')
     (Some ''a/b/c/file.py'') = Some ''/home/u/a/ruff.toml'' \<and>
   ancestors ''/home/u/a/b/c'' =
     [''/home/u/a/b/c'', ''/home/u/a/b'', ''/home/u/a'', ''/home/u'', ''/home'', ''/''] \<and>
   last (ancestors ''/home/u/a/b/c'') = ''/''"
  using config_resolution [of "\<lambda>p. ''/home/u/'' @ p"
      "\<lambda>f. f = ''/home/u/a/ruff.toml'' \<or> f = ''/home/u/pyproject.toml''" "''a/b/c/file.py''"
      "''/home/u/a/b/c''"]
  by (simp add: dirname_def sep_def ancestors.simps candidates_def config_names_def
      path_join_def isabs_def Let_def)

end
